theory Spec2Isabelle
  imports Main "HOL-Library.Word"
begin

section \<open>Limit/offset pagination: the model\<close>

text \<open>
  A shallow embedding of \<^verbatim>\<open>limit-offset/pagination.go\<close>. Go's \<^verbatim>\<open>uint\<close> is
  taken at its width on 64-bit targets, so \<open>+\<close> and \<open>-\<close> on it wrap around modulo
  \<open>2 ^ 64\<close>. Go's \<^verbatim>\<open>int\<close> holds slice lengths and slice bounds only; these stay
  between \<open>-1\<close> and \<open>2 ^ 63 - 1\<close>, so they are HOL integers. A Go string is a
  sequence of bytes: a \<open>string\<close>. The items of a page are opaque
  (\<^verbatim>\<open>[]interface{}\<close>): a list over a type variable.
\<close>

type_synonym uint = "64 word"
type_synonym uint64 = "64 word"

definition MaxInt :: nat where
  "MaxInt = 2 ^ 63 - 1"

subsection \<open>The standard library, as far as the package calls it\<close>

text \<open>\<^verbatim>\<open>len(s)\<close> of a slice, a Go \<^verbatim>\<open>int\<close>.\<close>

definition len :: "'a list \<Rightarrow> int" where
  "len xs = int (length xs)"

text \<open>
  The conversion \<^verbatim>\<open>uint(i)\<close> of an \<^verbatim>\<open>int\<close>: the value modulo \<open>2 ^ 64\<close>.
\<close>

definition uint_of_int :: "int \<Rightarrow> uint" where
  "uint_of_int i = word_of_int i"

text \<open>
  A run-time panic. The only operation of the package that can panic is the slice
  expression \<^verbatim>\<open>data[:hi]\<close>, when \<open>hi\<close> is out of range. (Go allows \<open>hi\<close> up to the
  capacity; the package only ever asks for \<open>hi \<le> len\<close>, and capacity is not modelled.)
\<close>

datatype panic = SliceBoundsOutOfRange

definition slice_to :: "'a list \<Rightarrow> int \<Rightarrow> panic + 'a list" where
  "slice_to xs hi =
     (if hi < 0 \<or> len xs < hi then Inl SliceBoundsOutOfRange else Inr (take (nat hi) xs))"

text \<open>
  \<^verbatim>\<open>strings.Split(s, sep)\<close> for a separator of one byte (the package splits on
  \<^verbatim>\<open>","\<close> and on \<^verbatim>\<open>"."\<close> only): the pieces of \<open>s\<close> between the separators, one
  more than there are separators, so the empty string splits into one empty piece.
\<close>

fun Split :: "string \<Rightarrow> char \<Rightarrow> string list" where
  "Split [] sep = [[]]"
| "Split (c # cs) sep =
     (if c = sep then [] # Split cs sep
      else (case Split cs sep of [] \<Rightarrow> [[c]] | w # ws \<Rightarrow> (c # w) # ws))"

text \<open>\<^verbatim>\<open>strings.Join(elems, sep)\<close>.\<close>

fun Join :: "string list \<Rightarrow> string \<Rightarrow> string" where
  "Join [] sep = []"
| "Join [x] sep = x"
| "Join (x # y # ys) sep = x @ sep @ Join (y # ys) sep"

text \<open>
  The verb \<^verbatim>\<open>%d\<close> of \<^verbatim>\<open>fmt.Sprintf\<close> on a non-negative number: its decimal digits,
  most significant first, taken from the digit table as \<^verbatim>\<open>strconv\<close> does.
\<close>

fun decimal :: "nat \<Rightarrow> string" where
  "decimal n =
     (if n < 10 then [''0123456789'' ! n]
      else decimal (n div 10) @ [''0123456789'' ! (n mod 10)])"

declare decimal.simps [simp del]

text \<open>
  \<^verbatim>\<open>strconv.ParseUint(s, 10, bitSize)\<close>. In base 10 every byte must be a decimal
  digit (no sign, no underscore). The loop returns a range error as soon as the value
  read so far exceeds \<open>2 ^ bitSize - 1\<close>, a syntax error at the first other byte.
\<close>

datatype NumError = ErrSyntax | ErrRange

definition maxUint64 :: uint64 where
  "maxUint64 = - 1"

definition cutoff :: uint64 where
  "cutoff = maxUint64 div 10 + 1"

definition isDigit :: "char \<Rightarrow> bool" where
  "isDigit c = (48 \<le> (of_char c :: nat) \<and> (of_char c :: nat) \<le> 57)"

fun ParseUint_loop :: "uint64 \<Rightarrow> uint64 \<Rightarrow> string \<Rightarrow> NumError + uint64" where
  "ParseUint_loop maxVal n [] = Inr n"
| "ParseUint_loop maxVal n (c # cs) =
     (if isDigit c then
        (let d = (of_char c :: uint64) - 48 in
         if cutoff \<le> n then Inl ErrRange
         else
           (let n' = n * 10; n1 = n' + d in
            if n1 < n' \<or> maxVal < n1 then Inl ErrRange
            else ParseUint_loop maxVal n1 cs))
      else Inl ErrSyntax)"

definition ParseUint :: "string \<Rightarrow> nat \<Rightarrow> NumError + uint64" where
  "ParseUint s bitSize =
     (if s = [] then Inl ErrSyntax
      else ParseUint_loop (push_bit bitSize 1 - 1) 0 s)"

text \<open>
  \<^verbatim>\<open>req.URL.Query()\<close>: the decoded key/value pairs of the query string, in the order
  they appear. \<^verbatim>\<open>Values.Get(key)\<close> is the first value of the key, and the empty string
  when the key has none.
\<close>

type_synonym Values = "(string \<times> string) list"

record Request =
  URL_Query :: Values

definition Get :: "Values \<Rightarrow> string \<Rightarrow> string" where
  "Get v key = (case map_of v key of None \<Rightarrow> [] | Some x \<Rightarrow> x)"

subsection \<open>Constants and types of the package\<close>

definition ParamPageLimit :: string where
  "ParamPageLimit = ''page[limit]''"

definition ParamPageOffset :: string where
  "ParamPageOffset = ''page[offset]''"

definition ParamSortBy :: string where
  "ParamSortBy = ''sort''"

record Sort =
  Field :: string
  Order :: string

record Params =
  Limit :: uint
  Offset :: uint
  Sort :: "Sort list"

text \<open>
  The links are serialised with \<^verbatim>\<open>omitempty\<close>: a link is present when its string is
  not empty.
\<close>

record Links =
  First :: string
  Prev :: string
  Next :: string
  Last :: string

record 'a Response =
  Data :: "'a list"
  Links :: Links

subsection \<open>\<^verbatim>\<open>SortURL\<close> and \<^verbatim>\<open>Query\<close>\<close>

text \<open>The loop of \<^verbatim>\<open>SortURL\<close>: \<^verbatim>\<open>tmp = append(tmp, Sprintf("%s.%s", ...))\<close>.\<close>

fun SortURL_loop :: "string list \<Rightarrow> Sort list \<Rightarrow> string list" where
  "SortURL_loop tmp [] = tmp"
| "SortURL_loop tmp (s # ss) = SortURL_loop (tmp @ [Field s @ ''.'' @ Order s]) ss"

definition SortURL :: "Params \<Rightarrow> string" where
  "SortURL p =
     (if 0 < length (Sort p)
      then (ParamSortBy @ ''='') @ Join (SortURL_loop [] (Sort p)) '',''
      else [])"

text \<open>The loop of \<^verbatim>\<open>Query\<close>: \<^verbatim>\<open>tmp = append(tmp, Sprintf("%s %s", ...))\<close>.\<close>

fun Query_loop :: "string list \<Rightarrow> Sort list \<Rightarrow> string list" where
  "Query_loop tmp [] = tmp"
| "Query_loop tmp (s # ss) = Query_loop (tmp @ [Field s @ '' '' @ Order s]) ss"

definition Query :: "Params \<Rightarrow> string" where
  "Query p =
     (let query = '' LIMIT '' @ decimal (unat (Limit p + 1)) @ '' OFFSET ''
                    @ decimal (unat (Offset p)) @ '' ''
      in if 0 < length (Sort p)
         then (query @ ''ORDER BY '') @ Join (Query_loop [] (Sort p)) '',''
         else query)"

subsection \<open>\<^verbatim>\<open>FindParams\<close>\<close>

text \<open>
  The loop over the comma-separated sort fields: a field that splits on \<^verbatim>\<open>"."\<close> into
  two parts is appended, any other is skipped.
\<close>

fun FindParams_sort :: "Sort list \<Rightarrow> string list \<Rightarrow> Sort list" where
  "FindParams_sort acc [] = acc"
| "FindParams_sort acc (field # sortFields) =
     (let v = Split field CHR ''.'' in
      if length v = 2
      then FindParams_sort (acc @ [\<lparr>Field = v ! 0, Order = v ! 1\<rparr>]) sortFields
      else FindParams_sort acc sortFields)"

text \<open>
  \<^verbatim>\<open>FindParams\<close> returns the pair of Go: the parameters and the error, \<open>None\<close> for
  \<^verbatim>\<open>nil\<close>. The request is taken to be a non-nil pointer. The conversion
  \<^verbatim>\<open>uint(convertedLimit)\<close> from \<^verbatim>\<open>uint64\<close> changes nothing at this width.
\<close>

definition FindParams :: "Request \<Rightarrow> uint \<Rightarrow> uint \<Rightarrow> Params \<times> NumError option" where
  "FindParams req defaultOffset defaultLimit =
     (let params = \<lparr>Limit = defaultLimit, Offset = defaultOffset, Sort = []\<rparr>;
          limit = Get (URL_Query req) ParamPageLimit;
          offset = Get (URL_Query req) ParamPageOffset;
          sort = Get (URL_Query req) ParamSortBy
      in
      case (if limit \<noteq> [] then
              (case ParseUint limit 32 of
                 Inl err \<Rightarrow> Inl err
               | Inr convertedLimit \<Rightarrow> Inr (params\<lparr>Limit := convertedLimit\<rparr>))
            else Inr params) of
        Inl err \<Rightarrow> (params, Some err)
      | Inr params \<Rightarrow>
          (case (if offset \<noteq> [] then
                   (case ParseUint offset 32 of
                      Inl err \<Rightarrow> Inl err
                    | Inr convertedOffset \<Rightarrow> Inr (params\<lparr>Offset := convertedOffset\<rparr>))
                 else Inr params) of
             Inl err \<Rightarrow> (params, Some err)
           | Inr params \<Rightarrow>
               (let params =
                      (if sort \<noteq> []
                       then params\<lparr>Sort := FindParams_sort (Sort params) (Split sort CHR '','')\<rparr>
                       else params)
                in (params, None))))"

subsection \<open>\<^verbatim>\<open>Paginate\<close>\<close>

text \<open>\<^verbatim>\<open>fmt.Sprintf("%s?%s=%d&%s=%d", a, b, c, d, e)\<close>.\<close>

definition Sprintf_link :: "string \<Rightarrow> string \<Rightarrow> nat \<Rightarrow> string \<Rightarrow> nat \<Rightarrow> string" where
  "Sprintf_link a b c d e = a @ ''?'' @ b @ ''='' @ decimal c @ ''&'' @ d @ ''='' @ decimal e"

definition buildLinks :: "string \<Rightarrow> Params \<Rightarrow> int \<Rightarrow> Links" where
  "buildLinks baseURL params dataSize =
     (let sortURL = SortURL params;
          links = \<lparr>First = [], Prev = [], Next = [], Last = []\<rparr>;
          links = links\<lparr>First :=
                    Sprintf_link baseURL ParamPageLimit (unat (Limit params)) ParamPageOffset 0\<rparr>;
          links = (if sortURL \<noteq> [] then links\<lparr>First := First links @ ''&'' @ sortURL\<rparr>
                   else links);
          links =
            (if Limit params < uint_of_int dataSize then
               (let links = links\<lparr>Next :=
                      Sprintf_link baseURL ParamPageLimit (unat (Limit params)) ParamPageOffset
                        (unat (Offset params + Limit params))\<rparr>
                in if sortURL \<noteq> [] then links\<lparr>Next := Next links @ ''&'' @ sortURL\<rparr>
                   else links)
             else links);
          links =
            (if 0 < Offset params then
               (let links = links\<lparr>Prev :=
                      Sprintf_link baseURL ParamPageLimit (unat (Limit params)) ParamPageOffset
                        (unat (Offset params - Limit params))\<rparr>
                in if sortURL \<noteq> [] then links\<lparr>Prev := Prev links @ ''&'' @ sortURL\<rparr>
                   else links)
             else links)
      in links)"

definition buildData :: "'a list \<Rightarrow> Params \<Rightarrow> panic + 'a list" where
  "buildData data params =
     (if Limit params < uint_of_int (len data) then slice_to data (len data - 1)
      else Inr data)"

definition Paginate :: "'a list \<Rightarrow> string \<Rightarrow> Params \<Rightarrow> panic + 'a Response" where
  "Paginate data baseURL params =
     (case buildData data params of
        Inl e \<Rightarrow> Inl e
      | Inr d \<Rightarrow> Inr \<lparr>Data = d, Links = buildLinks baseURL params (len data)\<rparr>)"

subsection \<open>Notions of the specification\<close>

text \<open>
  The number that a string of decimal digits denotes, read most significant digit
  first: the specification's ``well-formed non-negative integer string'' is a non-empty
  string of digits, and its value is \<open>decimal_value\<close>.
\<close>

definition digitVal :: "char \<Rightarrow> nat" where
  "digitVal c = of_char c - 48"

definition decimal_value :: "string \<Rightarrow> nat" where
  "decimal_value s = foldl (\<lambda>a c. 10 * a + digitVal c) 0 s"

definition numeral_string :: "string \<Rightarrow> bool" where
  "numeral_string s = (s \<noteq> [] \<and> list_all isDigit s)"

text \<open>
  A numeral string that \<^verbatim>\<open>ParseUint\<close> accepts at 32 bits: its value is at most
  \<open>2 ^ 32 - 1\<close>.
\<close>

definition fits_uint32 :: "string \<Rightarrow> bool" where
  "fits_uint32 s = (numeral_string s \<and> decimal_value s < 2 ^ 32)"

text \<open>A query parameter is present when the query string has a pair with its key.\<close>

definition has_param :: "Request \<Rightarrow> string \<Rightarrow> bool" where
  "has_param req key = (map_of (URL_Query req) key \<noteq> None)"

text \<open>The request with every pair of one key removed from its query.\<close>

definition without_param :: "Request \<Rightarrow> string \<Rightarrow> Request" where
  "without_param req key = req\<lparr>URL_Query := filter (\<lambda>kv. fst kv \<noteq> key) (URL_Query req)\<rparr>"

text \<open>A string without its prefix, when it starts with it (\<^verbatim>\<open>strings.TrimPrefix\<close>).\<close>

definition TrimPrefix :: "string \<Rightarrow> string \<Rightarrow> string" where
  "TrimPrefix s pre = (if take (length pre) s = pre then drop (length pre) s else s)"

text \<open>The sort token of a pair, as the sort URL writes it, and its clause in a query.\<close>

definition sort_token :: "Sort \<Rightarrow> string" where
  "sort_token s = Field s @ ''.'' @ Order s"

definition sort_clause :: "Sort \<Rightarrow> string" where
  "sort_clause s = Field s @ '' '' @ Order s"

text \<open>The pair that a token contributes when it splits on \<^verbatim>\<open>"."\<close> into two parts.\<close>

definition two_parts :: "string \<Rightarrow> bool" where
  "two_parts t = (length (Split t CHR ''.'') = 2)"

definition token_sort :: "string \<Rightarrow> Sort" where
  "token_sort t = \<lparr>Field = Split t CHR ''.'' ! 0, Order = Split t CHR ''.'' ! 1\<rparr>"

text \<open>
  The suffix of every link: nothing without sorts, and \<^verbatim>\<open>&sort=...\<close> with the
  comma-joined tokens otherwise.
\<close>

definition sort_suffix :: "Params \<Rightarrow> string" where
  "sort_suffix p = (if Sort p = [] then [] else ''&sort='' @ Join (map sort_token (Sort p)) '','')"

section \<open>Properties of the library functions\<close>

lemma Split_not_Nil: "Split s c \<noteq> []"
  by (induction s) (auto split: list.splits)

lemma Split_no_sep: "c \<notin> set s \<Longrightarrow> Split s c = [s]"
  by (induction s) auto

lemma Split_append_sep: "c \<notin> set a \<Longrightarrow> Split (a @ c # b) c = a # Split b c"
  by (induction a) auto

lemma length_Split: "length (Split s c) = Suc (count_list s c)"
  by (induction s) (auto split: list.splits simp: Split_not_Nil)

text \<open>
  \<open>Split\<close> is the inverse of \<open>Join\<close>: joining the pieces gives the string back, no
  piece holds the separator, and pieces without the separator are found again.
\<close>

lemma Join_Split: "Join (Split s c) [c] = s"
proof (induction s)
  case Nil
  show ?case by simp
next
  case (Cons x s)
  obtain w ws where sp: "Split s c = w # ws"
    using Split_not_Nil [of s c] by (cases "Split s c") auto
  show ?case
  proof (cases "x = c")
    case True
    with Cons sp show ?thesis by simp
  next
    case False
    with Cons sp show ?thesis by (cases ws) auto
  qed
qed

lemma Split_pieces: "w \<in> set (Split s c) \<Longrightarrow> c \<notin> set w"
  by (induction s arbitrary: w) (auto split: if_splits list.splits)

lemma Split_Join:
  "xs \<noteq> [] \<Longrightarrow> \<forall>x \<in> set xs. c \<notin> set x \<Longrightarrow> Split (Join xs [c]) c = xs"
proof (induction xs "[c]" rule: Join.induct)
  case 1
  then show ?case by simp
next
  case (2 x)
  then show ?case by (simp add: Split_no_sep)
next
  case (3 x y ys)
  then show ?case by (simp add: Split_append_sep)
qed

lemma decimal_not_Nil: "decimal n \<noteq> []"
  by (subst decimal.simps) simp

lemma decimal_zero_iff: "decimal n = ''0'' \<longleftrightarrow> n = 0"
proof
  assume h: "decimal n = ''0''"
  show "n = 0"
  proof (cases "n < 10")
    case True
    then have "n \<in> {0, 1, 2, 3, 4, 5, 6, 7, 8, 9}" by auto
    with h show ?thesis by (auto simp: decimal.simps)
  next
    case False
    with h decimal_not_Nil [of "n div 10"] show ?thesis
      by (subst (asm) decimal.simps) simp
  qed
next
  assume "n = 0"
  then show "decimal n = ''0''" by (simp add: decimal.simps)
qed

lemma digit_table:
  "k < 10 \<Longrightarrow> isDigit (''0123456789'' ! k) \<and> digitVal (''0123456789'' ! k) = k"
proof -
  assume "k < 10"
  then have "k \<in> {0, 1, 2, 3, 4, 5, 6, 7, 8, 9}" by auto
  then show ?thesis by (auto simp: isDigit_def digitVal_def)
qed

lemma decimal_value_snoc: "decimal_value (s @ [c]) = 10 * decimal_value s + digitVal c"
  by (simp add: decimal_value_def)

text \<open>
  What \<open>decimal\<close> prints is a numeral string, and it denotes the number printed.
\<close>

lemma decimal_round_trip: "numeral_string (decimal n) \<and> decimal_value (decimal n) = n"
proof (induction n rule: decimal.induct)
  case (1 n)
  show ?case
  proof (cases "n < 10")
    case True
    then have "decimal n = [''0123456789'' ! n]" by (subst decimal.simps) simp
    with True digit_table [of n] show ?thesis
      by (simp add: numeral_string_def decimal_value_def)
  next
    case False
    then have d: "decimal n = decimal (n div 10) @ [''0123456789'' ! (n mod 10)]"
      by (subst decimal.simps) simp
    have "n mod 10 < 10" by simp
    from digit_table [OF this] False "1.IH" show ?thesis
      unfolding d by (simp add: numeral_string_def decimal_value_snoc)
  qed
qed

subsection \<open>\<^verbatim>\<open>ParseUint\<close> at 32 bits\<close>

lemma digitVal_le: "isDigit c \<Longrightarrow> digitVal c \<le> 9"
  by (auto simp: isDigit_def digitVal_def)

lemma digit_word: "isDigit c \<Longrightarrow> (of_char c :: uint64) - 48 = of_nat (digitVal c)"
proof -
  assume "isDigit c"
  then have "48 \<le> (of_char c :: nat)" by (simp add: isDigit_def)
  then have "(of_nat (of_char c - 48) :: uint64) = of_nat (of_char c) - of_nat 48"
    by (rule of_nat_diff)
  then show ?thesis by (simp add: digitVal_def of_nat_of_char)
qed

lemma foldl_dec_mono: "k \<le> foldl (\<lambda>a c. 10 * a + digitVal c) k s"
proof (induction s arbitrary: k)
  case Nil
  show ?case by simp
next
  case (Cons c cs)
  have "k \<le> 10 * k + digitVal c" by simp
  also have "\<dots> \<le> foldl (\<lambda>a c. 10 * a + digitVal c) (10 * k + digitVal c) cs"
    by (rule Cons.IH)
  finally show ?case by simp
qed

lemma unat_small: "a < 2 ^ 40 \<Longrightarrow> unat (of_nat a :: uint64) = a"
  by (simp add: unat_of_nat)

lemma step_cutoff: "k < 2 ^ 32 \<Longrightarrow> \<not> cutoff \<le> (of_nat k :: uint64)"
  by (simp add: cutoff_def maxUint64_def word_le_nat_alt unat_of_nat)

lemma step_nowrap:
  "k < 2 ^ 32 \<Longrightarrow> d \<le> 9 \<Longrightarrow> \<not> ((of_nat k :: uint64) * 10 + of_nat d < of_nat k * 10)"
proof -
  assume a: "k < 2 ^ 32" "d \<le> 9"
  have e1: "(of_nat k :: uint64) * 10 + of_nat d = of_nat (10 * k + d)" by simp
  have e2: "(of_nat k :: uint64) * 10 = of_nat (10 * k)" by simp
  from a have "unat (of_nat (10 * k + d) :: uint64) = 10 * k + d" by (intro unat_small) simp
  moreover from a have "unat (of_nat (10 * k) :: uint64) = 10 * k" by (intro unat_small) simp
  ultimately show ?thesis unfolding e1 e2 by (simp add: word_less_nat_alt)
qed

lemma step_max:
  "k < 2 ^ 32 \<Longrightarrow> d \<le> 9 \<Longrightarrow>
     ((4294967295 :: uint64) < of_nat k * 10 + of_nat d) \<longleftrightarrow> 2 ^ 32 \<le> 10 * k + d"
proof -
  assume a: "k < 2 ^ 32" "d \<le> 9"
  have e1: "(of_nat k :: uint64) * 10 + of_nat d = of_nat (10 * k + d)" by simp
  from a have "unat (of_nat (10 * k + d) :: uint64) = 10 * k + d" by (intro unat_small) simp
  then show ?thesis unfolding e1 by (simp add: word_less_nat_alt) arith
qed

lemma ParseUint_loop_step:
  assumes "k < 2 ^ 32" "isDigit c"
  shows "ParseUint_loop 4294967295 (of_nat k) (c # cs) =
     (if 2 ^ 32 \<le> 10 * k + digitVal c then Inl ErrRange
      else ParseUint_loop 4294967295 (of_nat (10 * k + digitVal c)) cs)"
  using assms step_cutoff [of k] step_nowrap [of k "digitVal c"] step_max [of k "digitVal c"]
    digitVal_le [of c]
  by (simp add: digit_word Let_def mult.commute)

lemma ParseUint_loop_ok:
  "k < 2 ^ 32 \<Longrightarrow> list_all isDigit s \<Longrightarrow>
   foldl (\<lambda>a c. 10 * a + digitVal c) k s < 2 ^ 32 \<Longrightarrow>
   ParseUint_loop 4294967295 (of_nat k) s =
     Inr (of_nat (foldl (\<lambda>a c. 10 * a + digitVal c) k s))"
proof (induction s arbitrary: k)
  case Nil
  then show ?case by simp
next
  case (Cons c cs)
  from Cons.prems have d: "isDigit c" and ds: "list_all isDigit cs" by simp_all
  let ?k = "10 * k + digitVal c"
  from Cons.prems have f: "foldl (\<lambda>a c. 10 * a + digitVal c) ?k cs < 2 ^ 32" by simp
  have "?k \<le> foldl (\<lambda>a c. 10 * a + digitVal c) ?k cs" by (rule foldl_dec_mono)
  with f have k: "?k < 2 ^ 32" by simp
  have "ParseUint_loop 4294967295 (of_nat k) (c # cs) =
      ParseUint_loop 4294967295 (of_nat ?k) cs"
    using ParseUint_loop_step [OF Cons.prems(1) d, of cs] k by simp
  also have "\<dots> = Inr (of_nat (foldl (\<lambda>a c. 10 * a + digitVal c) ?k cs))"
    by (rule Cons.IH [OF k ds f])
  finally show ?case by simp
qed

lemma ParseUint_loop_Inr:
  "k < 2 ^ 32 \<Longrightarrow> ParseUint_loop 4294967295 (of_nat k) s = Inr v \<Longrightarrow>
   list_all isDigit s \<and> foldl (\<lambda>a c. 10 * a + digitVal c) k s < 2 ^ 32
     \<and> v = of_nat (foldl (\<lambda>a c. 10 * a + digitVal c) k s)"
proof (induction s arbitrary: k)
  case Nil
  then show ?case by auto
next
  case (Cons c cs)
  have d: "isDigit c"
    using Cons.prems(2) by (simp split: if_splits)
  let ?k = "10 * k + digitVal c"
  have st: "ParseUint_loop 4294967295 (of_nat k) (c # cs) =
     (if 2 ^ 32 \<le> ?k then Inl ErrRange else ParseUint_loop 4294967295 (of_nat ?k) cs)"
    by (rule ParseUint_loop_step [OF Cons.prems(1) d])
  with Cons.prems(2) have k: "?k < 2 ^ 32"
    by (auto split: if_splits)
  with st Cons.prems(2) have "ParseUint_loop 4294967295 (of_nat ?k) cs = Inr v" by simp
  from Cons.IH [OF k this] d show ?case by simp
qed

text \<open>
  \<^verbatim>\<open>ParseUint(s, 10, 32)\<close> succeeds on the non-empty digit strings whose value is
  below \<open>2 ^ 32\<close>, with that value, and on no other string.
\<close>

lemma ParseUint_32_iff:
  "ParseUint s 32 = Inr v \<longleftrightarrow>
     numeral_string s \<and> decimal_value s < 2 ^ 32 \<and> v = of_nat (decimal_value s)"
proof -
  have m: "(push_bit 32 1 - 1 :: uint64) = 4294967295" by simp
  show ?thesis
  proof (cases "s = []")
    case True
    then show ?thesis by (simp add: ParseUint_def numeral_string_def)
  next
    case False
    have "ParseUint s 32 = ParseUint_loop 4294967295 (of_nat 0) s"
      using False unfolding ParseUint_def m by simp
    then show ?thesis
      using False ParseUint_loop_ok [of 0 s] ParseUint_loop_Inr [of 0 s v]
      by (auto simp: decimal_value_def numeral_string_def)
  qed
qed

section \<open>The loops of the package\<close>

lemma SortURL_loop_map: "SortURL_loop tmp ss = tmp @ map sort_token ss"
  by (induction ss arbitrary: tmp) (auto simp: sort_token_def)

lemma Query_loop_map: "Query_loop tmp ss = tmp @ map sort_clause ss"
  by (induction ss arbitrary: tmp) (auto simp: sort_clause_def)

lemma FindParams_sort_filter:
  "FindParams_sort acc fs = acc @ map token_sort (filter two_parts fs)"
  by (induction fs arbitrary: acc) (auto simp: Let_def two_parts_def token_sort_def)

section \<open>The functions in closed form\<close>

lemma SortURL_eq:
  "SortURL p = (if Sort p = [] then [] else ''sort='' @ Join (map sort_token (Sort p)) '','')"
  by (simp add: SortURL_def SortURL_loop_map ParamSortBy_def)

lemma SortURL_Nil_iff: "SortURL p = [] \<longleftrightarrow> Sort p = []"
  by (simp add: SortURL_eq)

lemma sort_suffix_eq: "sort_suffix p = (if Sort p = [] then [] else ''&'' @ SortURL p)"
  by (simp add: sort_suffix_def SortURL_eq)

lemma Sprintf_link_eq:
  "Sprintf_link baseURL ParamPageLimit l ParamPageOffset off =
     baseURL @ ''?page[limit]='' @ decimal l @ ''&page[offset]='' @ decimal off"
  by (simp add: Sprintf_link_def ParamPageLimit_def ParamPageOffset_def)

lemma buildLinks_eq:
  "buildLinks baseURL p n =
     \<lparr>First = baseURL @ ''?page[limit]='' @ decimal (unat (Limit p)) @ ''&page[offset]=''
                @ decimal 0 @ sort_suffix p,
      Prev = (if 0 < Offset p
              then baseURL @ ''?page[limit]='' @ decimal (unat (Limit p)) @ ''&page[offset]=''
                     @ decimal (unat (Offset p - Limit p)) @ sort_suffix p
              else []),
      Next = (if Limit p < uint_of_int n
              then baseURL @ ''?page[limit]='' @ decimal (unat (Limit p)) @ ''&page[offset]=''
                     @ decimal (unat (Offset p + Limit p)) @ sort_suffix p
              else []),
      Last = []\<rparr>"
  by (simp add: buildLinks_def Let_def Sprintf_link_eq sort_suffix_eq SortURL_Nil_iff)

lemma buildData_eq:
  "buildData data p = Inr (if Limit p < uint_of_int (len data) then butlast data else data)"
proof (cases "Limit p < uint_of_int (len data)")
  case True
  then have "uint_of_int (len data) \<noteq> 0" by auto
  then have "data \<noteq> []" by (auto simp: uint_of_int_def len_def)
  then have "0 \<le> len data - 1" "nat (len data - 1) = length data - 1"
    by (cases data; simp add: len_def)+
  with True show ?thesis
    by (simp add: buildData_def slice_to_def butlast_conv_take)
next
  case False
  then show ?thesis by (simp add: buildData_def)
qed

lemma Paginate_eq:
  "Paginate data baseURL p =
     Inr \<lparr>Data = (if Limit p < uint_of_int (len data) then butlast data else data),
          Links = buildLinks baseURL p (len data)\<rparr>"
  by (simp add: Paginate_def buildData_eq)

lemma uint_len_less:
  "length data \<le> MaxInt \<Longrightarrow> (Limit p < uint_of_int (len data)) = (unat (Limit p) < length data)"
proof -
  assume "length data \<le> MaxInt"
  then have "length data < 2 ^ 64" by (simp add: MaxInt_def)
  then have "unat (of_nat (length data) :: uint) = length data"
    by (simp add: unat_of_nat)
  then show ?thesis by (simp add: uint_of_int_def len_def word_less_nat_alt)
qed

lemma unat_uint_add: "unat (a + b :: uint) = (unat a + unat b) mod 2 ^ 64"
  by (simp add: unat_word_ariths)

lemma unat_uint_sub:
  "unat (a - b :: uint) = (if b \<le> a then unat a - unat b else 2 ^ 64 + unat a - unat b)"
proof -
  have "unat (a - b) = (if unat b \<le> unat a then unat a - unat b else unat a + 2 ^ 64 - unat b)"
    by (simp add: unat_sub_if_size word_size)
  then show ?thesis by (auto simp: word_le_nat_alt)
qed

lemma unat_uint_Suc:
  "unat (a + 1 :: uint) = (if a = 18446744073709551615 then 0 else unat a + 1)"
proof (cases "a = 18446744073709551615")
  case True
  then show ?thesis by simp
next
  case False
  moreover have "(18446744073709551615 :: uint) = - 1" by simp
  ultimately have "a \<noteq> - 1" by simp
  then have "1 + a \<noteq> 0" by (simp add: add_eq_0_iff)
  then have "unat (1 + a) = Suc (unat a)" by (rule unatSuc)
  with False show ?thesis by (simp add: add.commute)
qed

lemma Query_eq:
  "Query p = '' LIMIT '' @ decimal (unat (Limit p + 1)) @ '' OFFSET ''
       @ decimal (unat (Offset p)) @ '' ''
       @ (if Sort p = [] then [] else ''ORDER BY '' @ Join (map sort_clause (Sort p)) '','')"
  by (simp add: Query_def Let_def Query_loop_map)

lemma Get_absent: "\<not> has_param req key \<Longrightarrow> Get (URL_Query req) key = []"
  by (simp add: has_param_def Get_def)

lemma Get_without_param:
  "key \<noteq> key' \<Longrightarrow> Get (URL_Query (without_param req key')) key = Get (URL_Query req) key"
proof -
  assume k: "key \<noteq> key'"
  have "map_of (filter (\<lambda>kv. fst kv \<noteq> key') q) key = map_of q key" for q :: Values
    using k by (induction q) auto
  then show ?thesis by (simp add: Get_def without_param_def)
qed

lemma sort_of_empty: "map token_sort (filter two_parts (Split [] CHR '','')) = []"
  by (simp add: two_parts_def)

text \<open>The three ways out of \<^verbatim>\<open>FindParams\<close>.\<close>

lemma FindParams_limit_error:
  assumes "Get (URL_Query req) ParamPageLimit \<noteq> []"
    and "ParseUint (Get (URL_Query req) ParamPageLimit) 32 = Inl e"
  shows "FindParams req dO dL = (\<lparr>Limit = dL, Offset = dO, Sort = []\<rparr>, Some e)"
  using assms by (simp add: FindParams_def Let_def)

lemma FindParams_offset_error:
  assumes "Get (URL_Query req) ParamPageLimit = [] \<and> l = dL
      \<or> ParseUint (Get (URL_Query req) ParamPageLimit) 32 = Inr l"
    and "Get (URL_Query req) ParamPageOffset \<noteq> []"
    and "ParseUint (Get (URL_Query req) ParamPageOffset) 32 = Inl e"
  shows "FindParams req dO dL = (\<lparr>Limit = l, Offset = dO, Sort = []\<rparr>, Some e)"
proof -
  have "ParseUint [] 32 = Inl ErrSyntax" by (simp add: ParseUint_def)
  with assms show ?thesis by (auto simp: FindParams_def Let_def)
qed

lemma FindParams_success:
  assumes "Get (URL_Query req) ParamPageLimit = [] \<and> l = dL
      \<or> ParseUint (Get (URL_Query req) ParamPageLimit) 32 = Inr l"
    and "Get (URL_Query req) ParamPageOffset = [] \<and> off = dO
      \<or> ParseUint (Get (URL_Query req) ParamPageOffset) 32 = Inr off"
  shows "FindParams req dO dL =
    (\<lparr>Limit = l, Offset = off,
      Sort = map token_sort (filter two_parts (Split (Get (URL_Query req) ParamSortBy) CHR '',''))\<rparr>,
     None)"
proof -
  have "ParseUint [] 32 = Inl ErrSyntax" by (simp add: ParseUint_def)
  with assms show ?thesis
    by (auto simp: FindParams_def Let_def FindParams_sort_filter two_parts_def)
qed

lemma ParseUint_accepts: "fits_uint32 s \<Longrightarrow> ParseUint s 32 = Inr (of_nat (decimal_value s))"
  by (simp add: ParseUint_32_iff fits_uint32_def)

lemma ParseUint_rejects: "\<not> fits_uint32 s \<Longrightarrow> \<exists>e. ParseUint s 32 = Inl e"
  by (cases "ParseUint s 32") (auto simp: ParseUint_32_iff fits_uint32_def)

lemma fits_uint32_not_Nil: "fits_uint32 s \<Longrightarrow> s \<noteq> []"
  by (simp add: fits_uint32_def numeral_string_def)

lemma unat_value: "decimal_value s < 2 ^ 32 \<Longrightarrow> unat (of_nat (decimal_value s) :: uint) = decimal_value s"
  by (rule unat_small) simp

lemma Split_token:
  "CHR ''.'' \<notin> set f \<Longrightarrow> CHR ''.'' \<notin> set d \<Longrightarrow> Split (f @ CHR ''.'' # d) CHR ''.'' = [f, d]"
  by (simp add: Split_append_sep Split_no_sep)

lemma token_round_trip:
  "CHR ''.'' \<notin> set (Field s) \<Longrightarrow> CHR ''.'' \<notin> set (Order s) \<Longrightarrow>
     two_parts (sort_token s) \<and> token_sort (sort_token s) = s"
  by (simp add: two_parts_def token_sort_def sort_token_def Split_token)

lemma tokens_round_trip:
  "\<forall>s \<in> set ss. CHR ''.'' \<notin> set (Field s) \<and> CHR ''.'' \<notin> set (Order s) \<Longrightarrow>
     map token_sort (filter two_parts (map sort_token ss)) = ss"
  by (induction ss) (simp_all add: token_round_trip)

lemma FindParams_only_sort:
  "FindParams \<lparr>URL_Query = [(ParamSortBy, v)]\<rparr> dO dL =
     (\<lparr>Limit = dL, Offset = dO, Sort = map token_sort (filter two_parts (Split v CHR '','')) \<rparr>, None)"
proof -
  have "Get [(ParamSortBy, v)] ParamPageLimit = []" "Get [(ParamSortBy, v)] ParamPageOffset = []"
    "Get [(ParamSortBy, v)] ParamSortBy = v"
    by (simp_all add: Get_def ParamSortBy_def ParamPageLimit_def ParamPageOffset_def)
  then show ?thesis
    using FindParams_success [of "\<lparr>URL_Query = [(ParamSortBy, v)]\<rparr>" dL dL dO dO] by simp
qed

lemma FindParams_error_without_sort:
  "snd (FindParams req dO dL) = snd (FindParams (without_param req ParamSortBy) dO dL)"
proof -
  have "Get (URL_Query (without_param req ParamSortBy)) ParamPageLimit
      = Get (URL_Query req) ParamPageLimit"
    and "Get (URL_Query (without_param req ParamSortBy)) ParamPageOffset
      = Get (URL_Query req) ParamPageOffset"
    by (simp_all add: Get_without_param ParamPageLimit_def ParamPageOffset_def ParamSortBy_def)
  then show ?thesis
    by (simp add: FindParams_def Let_def split: sum.splits)
qed

lemma FindParams_no_error_Sort:
  "snd (FindParams req dO dL) = None \<Longrightarrow>
     Sort (fst (FindParams req dO dL)) =
       map token_sort (filter two_parts (Split (Get (URL_Query req) ParamSortBy) CHR '',''))"
  by (auto simp: FindParams_def Let_def FindParams_sort_filter two_parts_def
    split: sum.splits if_splits)

lemmas eval_FindParams = FindParams_def Let_def Get_def ParseUint_def isDigit_def cutoff_def
  maxUint64_def ParamPageLimit_def ParamPageOffset_def ParamSortBy_def word_le_nat_alt
  word_less_nat_alt

lemmas eval_Paginate = Paginate_eq buildLinks_eq sort_suffix_def uint_of_int_def len_def
  decimal.simps word_less_nat_alt

section \<open>The claims\<close>

subsection \<open>The page builder\<close>

text \<open>
  Claim C1, as the code has it. For every slice of items (Go bounds its length by
  \<open>MaxInt\<close>), base path and parameters: when the number of items exceeds the limit,
  exactly the last item is dropped and the next link is present, with the offset
  \<open>(Offset + Limit) mod 2 ^ 64\<close>, the sum in Go's \<^verbatim>\<open>uint\<close>; otherwise all items are kept
  and the next link is absent.
\<close>

theorem Paginate_sentinel:
  assumes "length data \<le> MaxInt"
  shows "\<exists>r. Paginate data baseURL p = Inr r
     \<and> (if unat (Limit p) < length data
        then Data r = butlast data \<and> data = Data r @ [last data]
           \<and> Next (Links r) = baseURL @ ''?page[limit]='' @ decimal (unat (Limit p))
               @ ''&page[offset]='' @ decimal ((unat (Offset p) + unat (Limit p)) mod 2 ^ 64)
               @ (if Sort p = [] then [] else ''&'' @ SortURL p)
           \<and> Next (Links r) \<noteq> []
        else Data r = data \<and> Next (Links r) = [])"
proof -
  let ?r = "\<lparr>Data = (if Limit p < uint_of_int (len data) then butlast data else data),
          Links = buildLinks baseURL p (len data)\<rparr>"
  have r: "Paginate data baseURL p = Inr ?r" by (rule Paginate_eq)
  have c: "(Limit p < uint_of_int (len data)) = (unat (Limit p) < length data)"
    by (rule uint_len_less [OF assms])
  have n: "Next (buildLinks baseURL p (len data)) =
     (if unat (Limit p) < length data
      then baseURL @ ''?page[limit]='' @ decimal (unat (Limit p)) @ ''&page[offset]=''
             @ decimal (unat (Offset p + Limit p)) @ sort_suffix p
      else [])"
    unfolding buildLinks_eq c by simp
  have a: "unat (Offset p + Limit p) = (unat (Offset p) + unat (Limit p)) mod 2 ^ 64"
    by (rule unat_uint_add)
  show ?thesis
  proof (cases "unat (Limit p) < length data")
    case True
    then have ne: "data \<noteq> []" by auto
    have "Data ?r = butlast data" using True c by simp
    moreover have "data = Data ?r @ [last data]" using True c ne by simp
    moreover have "Next (Links ?r) = baseURL @ ''?page[limit]='' @ decimal (unat (Limit p))
               @ ''&page[offset]='' @ decimal ((unat (Offset p) + unat (Limit p)) mod 2 ^ 64)
               @ (if Sort p = [] then [] else ''&'' @ SortURL p)"
      using True n unfolding a sort_suffix_eq by simp
    moreover have "Next (Links ?r) \<noteq> []" using True n by simp
    ultimately show ?thesis using True r by simp
  next
    case False
    have "Data ?r = data" using False c by simp
    moreover have "Next (Links ?r) = []" using False n by simp
    ultimately show ?thesis using False r by simp
  qed
qed

theorem Paginate_sentinel_witness:
  "length [0, 1, 2 :: nat] \<le> MaxInt
   \<and> Paginate [0, 1, 2 :: nat] ''/sample'' \<lparr>Limit = 2, Offset = 4, Sort = []\<rparr> =
     Inr \<lparr>Data = [0, 1],
          Links = \<lparr>First = ''/sample?page[limit]=2&page[offset]=0'',
                   Prev = ''/sample?page[limit]=2&page[offset]=2'',
                   Next = ''/sample?page[limit]=2&page[offset]=6'',
                   Last = []\<rparr>\<rparr>"
proof -
  have h: "length [0, 1, 2 :: nat] \<le> MaxInt" by (simp add: MaxInt_def)
  show ?thesis
    using h Paginate_sentinel [OF h, of "''/sample''" "\<lparr>Limit = 2, Offset = 4, Sort = []\<rparr>"]
    by (simp add: eval_Paginate)
qed

text \<open>
  The offset of the next link is not always the sum of offset and limit: from the offset
  \<open>2 ^ 64 - 1\<close> with limit 1 the next link has the offset 0, where the sum is
  \<open>2 ^ 64\<close>.
\<close>

theorem Paginate_next_offset_counterexample:
  "Paginate [0, 1 :: nat] ''/sample'' \<lparr>Limit = 1, Offset = 18446744073709551615, Sort = []\<rparr> =
     Inr \<lparr>Data = [0],
          Links = \<lparr>First = ''/sample?page[limit]=1&page[offset]=0'',
                   Prev = ''/sample?page[limit]=1&page[offset]=18446744073709551614'',
                   Next = ''/sample?page[limit]=1&page[offset]=0'',
                   Last = []\<rparr>\<rparr>
   \<and> decimal (unat (18446744073709551615 :: uint) + unat (1 :: uint)) = ''18446744073709551616''"
  by (simp add: eval_Paginate)

text \<open>
  Claim C4. The previous link is present exactly when the offset is positive. Its offset
  is \<open>Offset - Limit\<close> in Go's \<^verbatim>\<open>uint\<close>, modulo \<open>2 ^ 64\<close> and not clamped: for an
  offset below the limit the link shows \<open>2 ^ 64 + Offset - Limit\<close>, which is not 0.
\<close>

theorem Paginate_prev:
  "\<exists>r. Paginate data baseURL p = Inr r
     \<and> (Prev (Links r) \<noteq> [] \<longleftrightarrow> 0 < Offset p)
     \<and> (0 < Offset p \<longrightarrow>
          Prev (Links r) = baseURL @ ''?page[limit]='' @ decimal (unat (Limit p))
            @ ''&page[offset]='' @ decimal (unat (Offset p - Limit p))
            @ (if Sort p = [] then [] else ''&'' @ SortURL p)
          \<and> unat (Offset p - Limit p) =
              (if Limit p \<le> Offset p then unat (Offset p) - unat (Limit p)
               else 2 ^ 64 + unat (Offset p) - unat (Limit p)))
     \<and> (0 < Offset p \<and> Offset p < Limit p \<longrightarrow>
          unat (Offset p - Limit p) = 2 ^ 64 + unat (Offset p) - unat (Limit p)
          \<and> decimal (unat (Offset p - Limit p)) \<noteq> ''0'')"
proof -
  let ?links = "buildLinks baseURL p (len data)"
  have r: "Paginate data baseURL p =
      Inr \<lparr>Data = (if Limit p < uint_of_int (len data) then butlast data else data),
           Links = ?links\<rparr>"
    by (rule Paginate_eq)
  have present: "Prev ?links \<noteq> [] \<longleftrightarrow> 0 < Offset p"
    by (simp add: buildLinks_eq)
  have link: "0 < Offset p \<Longrightarrow> Prev ?links =
       baseURL @ ''?page[limit]='' @ decimal (unat (Limit p))
            @ ''&page[offset]='' @ decimal (unat (Offset p - Limit p))
            @ (if Sort p = [] then [] else ''&'' @ SortURL p)"
    by (simp add: buildLinks_eq sort_suffix_eq)
  have wrapped: "Offset p < Limit p \<Longrightarrow>
      unat (Offset p - Limit p) = 2 ^ 64 + unat (Offset p) - unat (Limit p)"
    by (simp add: unat_uint_sub)
  have "Offset p < Limit p \<Longrightarrow> Offset p - Limit p \<noteq> 0"
    by auto
  then have not_zero: "Offset p < Limit p \<Longrightarrow> unat (Offset p - Limit p) \<noteq> 0"
    by (simp add: unat_eq_zero)
  show ?thesis
    unfolding r using present link wrapped not_zero
    by (simp add: decimal_zero_iff unat_uint_sub)
qed

theorem Paginate_prev_witness:
  "0 < (3 :: uint) \<and> (3 :: uint) < 5
   \<and> Paginate [0 :: nat] ''/sample'' \<lparr>Limit = 5, Offset = 3, Sort = []\<rparr> =
     Inr \<lparr>Data = [0],
          Links = \<lparr>First = ''/sample?page[limit]=5&page[offset]=0'',
                   Prev = ''/sample?page[limit]=5&page[offset]=18446744073709551614'',
                   Next = [],
                   Last = []\<rparr>\<rparr>"
  using Paginate_prev [of "[0 :: nat]" "''/sample''" "\<lparr>Limit = 5, Offset = 3, Sort = []\<rparr>"]
  by (simp add: eval_Paginate)

text \<open>
  Claim C8. The first link is always present: the base path, the limit, the offset 0
  and, only when there are sorts, \<^verbatim>\<open>&\<close> and the sort URL. The last link is never
  present.
\<close>

theorem Paginate_first_last:
  "\<exists>r. Paginate data baseURL p = Inr r
     \<and> First (Links r) = baseURL @ ''?page[limit]='' @ decimal (unat (Limit p))
          @ ''&page[offset]=0'' @ (if Sort p = [] then [] else ''&'' @ SortURL p)
     \<and> First (Links r) \<noteq> []
     \<and> Last (Links r) = []"
proof -
  have z: "decimal 0 = ''0''" by (simp add: decimal.simps)
  show ?thesis
    by (simp add: Paginate_eq buildLinks_eq sort_suffix_eq z)
qed

theorem Paginate_first_last_witness:
  "Paginate [0 :: nat] ''/sample''
       \<lparr>Limit = 5, Offset = 10, Sort = [\<lparr>Field = ''first_name'', Order = ''asc''\<rparr>]\<rparr> =
     Inr \<lparr>Data = [0],
          Links = \<lparr>First = ''/sample?page[limit]=5&page[offset]=0&sort=first_name.asc'',
                   Prev = ''/sample?page[limit]=5&page[offset]=5&sort=first_name.asc'',
                   Next = [],
                   Last = []\<rparr>\<rparr>"
  using Paginate_first_last [of "[0 :: nat]" "''/sample''"
      "\<lparr>Limit = 5, Offset = 10, Sort = [\<lparr>Field = ''first_name'', Order = ''asc''\<rparr>]\<rparr>"]
  by (simp add: eval_Paginate sort_token_def)

text \<open>
  Claim C9. \<^verbatim>\<open>Paginate\<close> never panics: for every slice, base path and parameters
  (an empty slice, a limit of zero, a limit below the number of items and an empty base
  path among them) \<^verbatim>\<open>buildData\<close> returns a slice, its slice expression being evaluated
  only within bounds, and \<^verbatim>\<open>Paginate\<close> returns a response.
\<close>

theorem Paginate_total:
  "(\<exists>d. buildData data p = Inr d) \<and> (\<exists>r. Paginate data baseURL p = Inr r)"
  by (simp add: Paginate_eq buildData_eq)

theorem Paginate_total_witness:
  "Paginate ([] :: nat list) [] \<lparr>Limit = 0, Offset = 0, Sort = []\<rparr> =
     Inr \<lparr>Data = [],
          Links = \<lparr>First = ''?page[limit]=0&page[offset]=0'', Prev = [], Next = [], Last = []\<rparr>\<rparr>
   \<and> Paginate [0, 1, 2 :: nat] [] \<lparr>Limit = 0, Offset = 0, Sort = []\<rparr> =
     Inr \<lparr>Data = [0, 1],
          Links = \<lparr>First = ''?page[limit]=0&page[offset]=0'', Prev = [],
                   Next = ''?page[limit]=0&page[offset]=0'', Last = []\<rparr>\<rparr>"
  using Paginate_total [of "[] :: nat list" "\<lparr>Limit = 0, Offset = 0, Sort = []\<rparr>" "[]"]
    Paginate_total [of "[0, 1, 2 :: nat]" "\<lparr>Limit = 0, Offset = 0, Sort = []\<rparr>" "[]"]
  by (simp add: eval_Paginate)

subsection \<open>The query fragment\<close>

text \<open>
  Claim C2, as the code has it. \<^verbatim>\<open>Query\<close> returns a space, \<^verbatim>\<open>LIMIT\<close>, the limit plus
  one in Go's \<^verbatim>\<open>uint\<close> (one more than the limit, and 0 for the limit
  \<open>2 ^ 64 - 1\<close>), \<^verbatim>\<open>OFFSET\<close>, the offset, a space and, only when there are sorts,
  \<^verbatim>\<open>ORDER BY\<close> and the comma-joined pairs of field and direction in their order.
  Limit 10 and offset 20 without sorts give \<^verbatim>\<open>" LIMIT 11 OFFSET 20 "\<close>.
\<close>

theorem Query_form:
  "Query p = '' LIMIT ''
       @ decimal (if Limit p = 18446744073709551615 then 0 else unat (Limit p) + 1)
       @ '' OFFSET '' @ decimal (unat (Offset p)) @ '' ''
       @ (if Sort p = [] then [] else ''ORDER BY '' @ Join (map sort_clause (Sort p)) '','')
   \<and> Query \<lparr>Limit = 10, Offset = 20, Sort = []\<rparr> = '' LIMIT 11 OFFSET 20 ''"
proof
  show "Query p = '' LIMIT ''
       @ decimal (if Limit p = 18446744073709551615 then 0 else unat (Limit p) + 1)
       @ '' OFFSET '' @ decimal (unat (Offset p)) @ '' ''
       @ (if Sort p = [] then [] else ''ORDER BY '' @ Join (map sort_clause (Sort p)) '','')"
    unfolding Query_eq unat_uint_Suc by simp
next
  show "Query \<lparr>Limit = 10, Offset = 20, Sort = []\<rparr> = '' LIMIT 11 OFFSET 20 ''"
    by (simp add: Query_eq decimal.simps)
qed

theorem Query_form_witness:
  "Query \<lparr>Limit = 2, Offset = 34,
      Sort = [\<lparr>Field = ''last_name'', Order = ''asc''\<rparr>, \<lparr>Field = ''created_at'', Order = ''desc''\<rparr>]\<rparr>
     = '' LIMIT 3 OFFSET 34 ORDER BY last_name asc,created_at desc''"
  using Query_form [of "\<lparr>Limit = 2, Offset = 34,
      Sort = [\<lparr>Field = ''last_name'', Order = ''asc''\<rparr>, \<lparr>Field = ''created_at'', Order = ''desc''\<rparr>]\<rparr>"]
  by (simp add: decimal.simps sort_clause_def)

text \<open>
  The number after \<^verbatim>\<open>LIMIT\<close> is not always the limit plus one: for the limit
  \<open>2 ^ 64 - 1\<close> it is 0.
\<close>

theorem Query_limit_counterexample:
  "Query \<lparr>Limit = 18446744073709551615, Offset = 20, Sort = []\<rparr> = '' LIMIT 0 OFFSET 20 ''
   \<and> decimal (unat (18446744073709551615 :: uint) + 1) = ''18446744073709551616''"
  by (simp add: Query_eq decimal.simps)

subsection \<open>The parameter extractor\<close>

text \<open>
  Claim C3, as the code has it. When the limit and the offset parameter are strings of
  decimal digits whose values are at most \<open>2 ^ 32 - 1\<close>, \<^verbatim>\<open>FindParams\<close> succeeds with
  exactly these values. When the limit (the offset) parameter is absent, the default
  limit (offset) is returned.
\<close>

theorem FindParams_limit_offset:
  "(fits_uint32 lstr \<and> fits_uint32 ostr \<and> Get (URL_Query req) ParamPageLimit = lstr
      \<and> Get (URL_Query req) ParamPageOffset = ostr \<longrightarrow>
        snd (FindParams req dO dL) = None
        \<and> unat (Limit (fst (FindParams req dO dL))) = decimal_value lstr
        \<and> unat (Offset (fst (FindParams req dO dL))) = decimal_value ostr)
   \<and> (\<not> has_param req ParamPageLimit \<longrightarrow> Limit (fst (FindParams req dO dL)) = dL)
   \<and> (\<not> has_param req ParamPageOffset \<longrightarrow> Offset (fst (FindParams req dO dL)) = dO)"
proof (intro conjI impI)
  assume a: "fits_uint32 lstr \<and> fits_uint32 ostr \<and> Get (URL_Query req) ParamPageLimit = lstr
      \<and> Get (URL_Query req) ParamPageOffset = ostr"
  then have "ParseUint (Get (URL_Query req) ParamPageLimit) 32 = Inr (of_nat (decimal_value lstr))"
    and "ParseUint (Get (URL_Query req) ParamPageOffset) 32 = Inr (of_nat (decimal_value ostr))"
    by (simp_all add: ParseUint_accepts)
  then have "FindParams req dO dL =
    (\<lparr>Limit = of_nat (decimal_value lstr), Offset = of_nat (decimal_value ostr),
      Sort = map token_sort (filter two_parts (Split (Get (URL_Query req) ParamSortBy) CHR '',''))\<rparr>,
     None)"
    by (intro FindParams_success) simp_all
  moreover from a have "decimal_value lstr < 2 ^ 32" "decimal_value ostr < 2 ^ 32"
    by (simp_all add: fits_uint32_def)
  ultimately show "snd (FindParams req dO dL) = None"
    and "unat (Limit (fst (FindParams req dO dL))) = decimal_value lstr"
    and "unat (Offset (fst (FindParams req dO dL))) = decimal_value ostr"
    by (simp_all add: unat_value)
next
  assume "\<not> has_param req ParamPageLimit"
  then have "Get (URL_Query req) ParamPageLimit = []" by (rule Get_absent)
  then show "Limit (fst (FindParams req dO dL)) = dL"
    by (simp add: FindParams_def Let_def split: sum.splits)
next
  assume "\<not> has_param req ParamPageOffset"
  then have "Get (URL_Query req) ParamPageOffset = []" by (rule Get_absent)
  then show "Offset (fst (FindParams req dO dL)) = dO"
    by (simp add: FindParams_def Let_def split: sum.splits)
qed

theorem FindParams_limit_offset_witness:
  "fits_uint32 ''5'' \<and> fits_uint32 ''10''
   \<and> FindParams \<lparr>URL_Query = [(''page[limit]'', ''5''), (''page[offset]'', ''10'')]\<rparr> 2 4
       = (\<lparr>Limit = 5, Offset = 10, Sort = []\<rparr>, None)
   \<and> \<not> has_param \<lparr>URL_Query = []\<rparr> ParamPageLimit
   \<and> \<not> has_param \<lparr>URL_Query = []\<rparr> ParamPageOffset
   \<and> FindParams \<lparr>URL_Query = []\<rparr> 2 4 = (\<lparr>Limit = 4, Offset = 2, Sort = []\<rparr>, None)"
  using FindParams_limit_offset [of "''5''" "''10''"
      "\<lparr>URL_Query = [(''page[limit]'', ''5''), (''page[offset]'', ''10'')]\<rparr>" 2 4]
    FindParams_limit_offset [of "''5''" "''10''" "\<lparr>URL_Query = []\<rparr>" 2 4]
  by (simp add: eval_FindParams fits_uint32_def numeral_string_def decimal_value_def digitVal_def
    has_param_def)

text \<open>
  A well-formed non-negative integer can be too large: the limit \<open>2 ^ 32\<close> is
  refused with a range error, and the defaults come back.
\<close>

theorem FindParams_limit_counterexample:
  "numeral_string ''4294967296''
   \<and> FindParams \<lparr>URL_Query = [(''page[limit]'', ''4294967296''), (''page[offset]'', ''0'')]\<rparr> 2 4
       = (\<lparr>Limit = 4, Offset = 2, Sort = []\<rparr>, Some ErrRange)"
  by (simp add: eval_FindParams numeral_string_def)

text \<open>
  Claim C7, as the code has it. \<^verbatim>\<open>FindParams\<close> returns an error exactly when the value
  of the limit or of the offset parameter is not empty and is not a string of decimal
  digits with a value of at most \<open>2 ^ 32 - 1\<close>. With the error come the limit when it
  was parsed and the default limit otherwise, the default offset, and no sorts.
\<close>

theorem FindParams_error:
  "(snd (FindParams req dO dL) \<noteq> None \<longleftrightarrow>
      (Get (URL_Query req) ParamPageLimit \<noteq> [] \<and> \<not> fits_uint32 (Get (URL_Query req) ParamPageLimit))
      \<or> (Get (URL_Query req) ParamPageOffset \<noteq> [] \<and> \<not> fits_uint32 (Get (URL_Query req) ParamPageOffset)))
   \<and> (snd (FindParams req dO dL) \<noteq> None \<longrightarrow>
        fst (FindParams req dO dL) =
          \<lparr>Limit = (if fits_uint32 (Get (URL_Query req) ParamPageLimit)
                    then of_nat (decimal_value (Get (URL_Query req) ParamPageLimit)) else dL),
           Offset = dO, Sort = []\<rparr>)"
proof -
  let ?limit = "Get (URL_Query req) ParamPageLimit"
  let ?offset = "Get (URL_Query req) ParamPageOffset"
  let ?l = "if fits_uint32 ?limit then of_nat (decimal_value ?limit) else dL"
  consider (lim) "?limit \<noteq> []" "\<not> fits_uint32 ?limit"
    | (off) "?limit = [] \<or> fits_uint32 ?limit" "?offset \<noteq> []" "\<not> fits_uint32 ?offset"
    | (ok) "?limit = [] \<or> fits_uint32 ?limit" "?offset = [] \<or> fits_uint32 ?offset"
    by blast
  then show ?thesis
  proof cases
    case lim
    from lim(2) obtain e where "ParseUint ?limit 32 = Inl e"
      using ParseUint_rejects by blast
    with lim(1) have "FindParams req dO dL = (\<lparr>Limit = dL, Offset = dO, Sort = []\<rparr>, Some e)"
      by (rule FindParams_limit_error)
    with lim show ?thesis by simp
  next
    case off
    from off(3) obtain e where e: "ParseUint ?offset 32 = Inl e"
      using ParseUint_rejects by blast
    from off(1) have "?limit = [] \<and> ?l = dL \<or> ParseUint ?limit 32 = Inr ?l"
      using fits_uint32_not_Nil [of ?limit] ParseUint_accepts [of ?limit] by auto
    then have "FindParams req dO dL = (\<lparr>Limit = ?l, Offset = dO, Sort = []\<rparr>, Some e)"
      using off(2) e by (rule FindParams_offset_error)
    with off show ?thesis by simp
  next
    case ok
    let ?o = "if fits_uint32 ?offset then of_nat (decimal_value ?offset) else dO"
    from ok(1) have "?limit = [] \<and> ?l = dL \<or> ParseUint ?limit 32 = Inr ?l"
      using fits_uint32_not_Nil [of ?limit] ParseUint_accepts [of ?limit] by auto
    moreover from ok(2) have "?offset = [] \<and> ?o = dO \<or> ParseUint ?offset 32 = Inr ?o"
      using fits_uint32_not_Nil [of ?offset] ParseUint_accepts [of ?offset] by auto
    ultimately have "snd (FindParams req dO dL) = None"
      using FindParams_success [of req ?l dL ?o dO] by simp
    with ok show ?thesis by auto
  qed
qed

theorem FindParams_error_witness:
  "FindParams \<lparr>URL_Query = [(''page[limit]'', ''7''), (''page[offset]'', ''-1''), (''sort'', ''a.b'')]\<rparr> 3 4
     = (\<lparr>Limit = 7, Offset = 3, Sort = []\<rparr>, Some ErrSyntax)"
  using FindParams_error [of
      "\<lparr>URL_Query = [(''page[limit]'', ''7''), (''page[offset]'', ''-1''), (''sort'', ''a.b'')]\<rparr>" 3 4]
  by (simp add: eval_FindParams)

text \<open>
  An error does not follow being present and not a non-negative integer: the offset
  \<open>2 ^ 32\<close> is a non-negative integer and gives an error, and a limit parameter that
  is present with the empty value is not an integer and gives none.
\<close>

theorem FindParams_error_counterexample:
  "has_param \<lparr>URL_Query = [(''page[offset]'', ''4294967296'')]\<rparr> ParamPageOffset
   \<and> numeral_string ''4294967296''
   \<and> snd (FindParams \<lparr>URL_Query = [(''page[offset]'', ''4294967296'')]\<rparr> 0 0) = Some ErrRange
   \<and> has_param \<lparr>URL_Query = [(''page[limit]'', '''')]\<rparr> ParamPageLimit
   \<and> \<not> numeral_string ''''
   \<and> snd (FindParams \<lparr>URL_Query = [(''page[limit]'', '''')]\<rparr> 0 0) = None"
  by (simp add: eval_FindParams numeral_string_def has_param_def)

text \<open>
  Claim C5, as the code has it. The sort parameter never decides whether \<^verbatim>\<open>FindParams\<close>
  returns an error. When it returns none (the limit and the offset did not fail to
  parse, so the sort parameter is looked at), the sorts are the pairs of the
  comma-separated tokens that split on periods into exactly two parts, in the order of
  the tokens, field and direction as they stand; the other tokens leave no trace.
\<close>

theorem FindParams_sort_tokens:
  "snd (FindParams req dO dL) = snd (FindParams (without_param req ParamSortBy) dO dL)
   \<and> (snd (FindParams req dO dL) = None \<longrightarrow>
        Sort (fst (FindParams req dO dL)) =
          map token_sort (filter two_parts (Split (Get (URL_Query req) ParamSortBy) CHR '','')))"
  using FindParams_error_without_sort [of req dO dL] FindParams_no_error_Sort [of req dO dL]
  by simp

theorem FindParams_sort_tokens_witness:
  "FindParams \<lparr>URL_Query = [(''sort'', ''name.asc,asc(muz),second_name.desc'')]\<rparr> 0 0
     = (\<lparr>Limit = 0, Offset = 0,
         Sort = [\<lparr>Field = ''name'', Order = ''asc''\<rparr>, \<lparr>Field = ''second_name'', Order = ''desc''\<rparr>]\<rparr>,
        None)"
  using FindParams_sort_tokens [of
      "\<lparr>URL_Query = [(''sort'', ''name.asc,asc(muz),second_name.desc'')]\<rparr>" 0 0]
  by (simp add: eval_FindParams)

text \<open>
  A sort parameter is not looked at after a limit or an offset that fails to parse: the
  token \<^verbatim>\<open>name.asc\<close> splits into two parts and yet contributes no sort.
\<close>

theorem FindParams_sort_skipped_counterexample:
  "has_param \<lparr>URL_Query = [(''page[limit]'', ''abc''), (''sort'', ''name.asc'')]\<rparr> ParamSortBy
   \<and> Split ''name.asc'' CHR ''.'' = [''name'', ''asc'']
   \<and> FindParams \<lparr>URL_Query = [(''page[limit]'', ''abc''), (''sort'', ''name.asc'')]\<rparr> 2 4
       = (\<lparr>Limit = 4, Offset = 2, Sort = []\<rparr>, Some ErrSyntax)"
  by (simp add: eval_FindParams has_param_def)

text \<open>
  Claim C6. For sorts whose fields and directions are not empty and hold neither a comma
  nor a period, \<^verbatim>\<open>FindParams\<close> reads from the sort URL without its \<^verbatim>\<open>sort=\<close> the same
  sorts again. The sort URL of no sorts is the empty string.
\<close>

theorem SortURL_round_trip:
  assumes "\<forall>s \<in> set (Sort p). Field s \<noteq> [] \<and> Order s \<noteq> []
      \<and> CHR '','' \<notin> set (Field s) \<and> CHR ''.'' \<notin> set (Field s)
      \<and> CHR '','' \<notin> set (Order s) \<and> CHR ''.'' \<notin> set (Order s)"
  shows "FindParams \<lparr>URL_Query = [(ParamSortBy, TrimPrefix (SortURL p) ''sort='')]\<rparr> dO dL
       = (\<lparr>Limit = dL, Offset = dO, Sort = Sort p\<rparr>, None)
     \<and> SortURL (p\<lparr>Sort := []\<rparr>) = []"
proof (cases "Sort p = []")
  case True
  then have "TrimPrefix (SortURL p) ''sort='' = []"
    by (simp add: SortURL_eq TrimPrefix_def)
  with True show ?thesis
    by (simp add: FindParams_only_sort two_parts_def SortURL_eq)
next
  case False
  let ?toks = "map sort_token (Sort p)"
  have v: "TrimPrefix (SortURL p) ''sort='' = Join ?toks '',''"
    using False by (simp add: SortURL_eq TrimPrefix_def)
  have "\<forall>x \<in> set ?toks. CHR '','' \<notin> set x"
    using assms by (auto simp: sort_token_def)
  with False have "Split (Join ?toks '','') CHR '','' = ?toks"
    by (intro Split_Join) simp_all
  moreover have "map token_sort (filter two_parts ?toks) = Sort p"
    using assms by (intro tokens_round_trip) simp
  ultimately have "FindParams \<lparr>URL_Query = [(ParamSortBy, TrimPrefix (SortURL p) ''sort='')]\<rparr> dO dL
       = (\<lparr>Limit = dL, Offset = dO, Sort = Sort p\<rparr>, None)"
    unfolding v by (simp add: FindParams_only_sort)
  moreover have "SortURL (p\<lparr>Sort := []\<rparr>) = []"
    by (simp add: SortURL_eq)
  ultimately show ?thesis by simp
qed

theorem SortURL_round_trip_witness:
  "SortURL \<lparr>Limit = 5, Offset = 10,
       Sort = [\<lparr>Field = ''first_name'', Order = ''asc''\<rparr>, \<lparr>Field = ''created_at'', Order = ''desc''\<rparr>]\<rparr>
     = ''sort=first_name.asc,created_at.desc''
   \<and> FindParams \<lparr>URL_Query = [(''sort'', ''first_name.asc,created_at.desc'')]\<rparr> 0 0
     = (\<lparr>Limit = 0, Offset = 0,
         Sort = [\<lparr>Field = ''first_name'', Order = ''asc''\<rparr>, \<lparr>Field = ''created_at'', Order = ''desc''\<rparr>]\<rparr>,
        None)"
proof -
  let ?p = "\<lparr>Limit = 5, Offset = 10,
       Sort = [\<lparr>Field = ''first_name'', Order = ''asc''\<rparr>, \<lparr>Field = ''created_at'', Order = ''desc''\<rparr>]\<rparr>"
  have h: "\<forall>s \<in> set (Sort ?p). Field s \<noteq> [] \<and> Order s \<noteq> []
      \<and> CHR '','' \<notin> set (Field s) \<and> CHR ''.'' \<notin> set (Field s)
      \<and> CHR '','' \<notin> set (Order s) \<and> CHR ''.'' \<notin> set (Order s)"
    by simp
  have u: "SortURL ?p = ''sort=first_name.asc,created_at.desc''"
    by (simp add: SortURL_eq sort_token_def)
  show ?thesis
    using SortURL_round_trip [OF h, of 0 0] unfolding u
    by (simp add: TrimPrefix_def ParamSortBy_def)
qed

text \<open>
  Claim C10. A token with one period splits into two parts also when a part is empty
  (\<^verbatim>\<open>.asc\<close>, \<^verbatim>\<open>name.\<close> and \<^verbatim>\<open>.\<close> among them): \<^verbatim>\<open>FindParams\<close> accepts it as a sort
  with that field and that direction, and \<^verbatim>\<open>Query\<close> and \<^verbatim>\<open>SortURL\<close> write the parts as
  they are.
\<close>

theorem FindParams_empty_parts:
  assumes "CHR ''.'' \<notin> set f" "CHR '','' \<notin> set f" "CHR ''.'' \<notin> set d" "CHR '','' \<notin> set d"
  shows "Split (f @ ''.'' @ d) CHR ''.'' = [f, d]
     \<and> FindParams \<lparr>URL_Query = [(ParamSortBy, f @ ''.'' @ d)]\<rparr> dO dL
         = (\<lparr>Limit = dL, Offset = dO, Sort = [\<lparr>Field = f, Order = d\<rparr>]\<rparr>, None)
     \<and> (snd (FindParams req dO dL) = None
          \<and> f @ ''.'' @ d \<in> set (Split (Get (URL_Query req) ParamSortBy) CHR '','') \<longrightarrow>
            \<lparr>Field = f, Order = d\<rparr> \<in> set (Sort (fst (FindParams req dO dL))))
     \<and> Query \<lparr>Limit = l, Offset = off, Sort = [\<lparr>Field = f, Order = d\<rparr>]\<rparr>
         = Query \<lparr>Limit = l, Offset = off, Sort = []\<rparr> @ ''ORDER BY '' @ f @ '' '' @ d
     \<and> SortURL \<lparr>Limit = l, Offset = off, Sort = [\<lparr>Field = f, Order = d\<rparr>]\<rparr>
         = ''sort='' @ f @ ''.'' @ d"
proof -
  let ?t = "f @ ''.'' @ d"
  have sp: "Split ?t CHR ''.'' = [f, d]"
    using assms by (simp add: Split_token)
  then have tok: "two_parts ?t" "token_sort ?t = \<lparr>Field = f, Order = d\<rparr>"
    by (simp_all add: two_parts_def token_sort_def)
  have "CHR '','' \<notin> set ?t" using assms by simp
  then have "Split ?t CHR '','' = [?t]" by (rule Split_no_sep)
  with tok have alone: "FindParams \<lparr>URL_Query = [(ParamSortBy, ?t)]\<rparr> dO dL
         = (\<lparr>Limit = dL, Offset = dO, Sort = [\<lparr>Field = f, Order = d\<rparr>]\<rparr>, None)"
    by (simp add: FindParams_only_sort)
  have among: "\<lparr>Field = f, Order = d\<rparr> \<in> set (Sort (fst (FindParams req dO dL)))"
    if ok: "snd (FindParams req dO dL) = None"
      and t: "?t \<in> set (Split (Get (URL_Query req) ParamSortBy) CHR '','')"
  proof -
    from t tok(1) have "?t \<in> set (filter two_parts (Split (Get (URL_Query req) ParamSortBy) CHR '',''))"
      by simp
    then have "token_sort ?t
        \<in> token_sort ` set (filter two_parts (Split (Get (URL_Query req) ParamSortBy) CHR '',''))"
      by (rule imageI)
    then have "token_sort ?t \<in> set (Sort (fst (FindParams req dO dL)))"
      unfolding FindParams_no_error_Sort [OF ok] by simp
    with tok(2) show ?thesis by simp
  qed
  have q: "Query \<lparr>Limit = l, Offset = off, Sort = [\<lparr>Field = f, Order = d\<rparr>]\<rparr>
         = Query \<lparr>Limit = l, Offset = off, Sort = []\<rparr> @ ''ORDER BY '' @ f @ '' '' @ d"
    by (simp add: Query_eq sort_clause_def)
  have u: "SortURL \<lparr>Limit = l, Offset = off, Sort = [\<lparr>Field = f, Order = d\<rparr>]\<rparr>
         = ''sort='' @ f @ ''.'' @ d"
    by (simp add: SortURL_eq sort_token_def)
  from sp alone among q u show ?thesis by blast
qed

theorem FindParams_empty_parts_witness:
  "FindParams \<lparr>URL_Query = [(''sort'', ''.asc'')]\<rparr> 0 0
     = (\<lparr>Limit = 0, Offset = 0, Sort = [\<lparr>Field = [], Order = ''asc''\<rparr>]\<rparr>, None)
   \<and> FindParams \<lparr>URL_Query = [(''sort'', ''name.'')]\<rparr> 0 0
     = (\<lparr>Limit = 0, Offset = 0, Sort = [\<lparr>Field = ''name'', Order = []\<rparr>]\<rparr>, None)
   \<and> FindParams \<lparr>URL_Query = [(''sort'', ''.'')]\<rparr> 0 0
     = (\<lparr>Limit = 0, Offset = 0, Sort = [\<lparr>Field = [], Order = []\<rparr>]\<rparr>, None)
   \<and> Query \<lparr>Limit = 10, Offset = 20, Sort = [\<lparr>Field = [], Order = ''asc''\<rparr>]\<rparr>
     = '' LIMIT 11 OFFSET 20 ORDER BY  asc''
   \<and> SortURL \<lparr>Limit = 10, Offset = 20, Sort = [\<lparr>Field = ''name'', Order = []\<rparr>]\<rparr>
     = ''sort=name.''"
  using FindParams_empty_parts [of "[]" "''asc''" 0 0 "\<lparr>URL_Query = []\<rparr>" 10 20]
    FindParams_empty_parts [of "''name''" "[]" 0 0 "\<lparr>URL_Query = []\<rparr>" 10 20]
    FindParams_empty_parts [of "[]" "[]" 0 0 "\<lparr>URL_Query = []\<rparr>" 10 20]
  by (simp add: ParamSortBy_def Query_eq decimal.simps)

end
